theory Spec2Isabelle
  imports Complex_Main "HOL-Library.Sublist"
begin

section \<open>Data of the checker\<close>

text \<open>
  The program is a PyQt window (\<open>MainWindow\<close>) that starts worker threads
  (\<open>CheckerThread\<close>). A worker probes handles, either the lines of a file or random
  draws, and reports through Qt signals. Everything a worker or the window does to the outside
  is recorded, in program order, as a list of effects; what the outside answers (HTTP
  responses, I/O failures, random numbers, the moment \<open>stop()\<close> is called) is read
  from an environment record.

  Strings are \<open>char list\<close>: the model covers text whose code points are below 256.
  Texts of exceptions (\<open>str(e)\<close>) are strings supplied by the environment.
\<close>

type_synonym errtext = string

text \<open>A value as \<open>json.load\<close> returns it. Numbers are kept as integers: no
  operation of the program looks inside one.\<close>

datatype json =
    JNull
  | JBool bool
  | JNum int
  | JStr string
  | JArr "json list"
  | JObj "(string \<times> json) list"

text \<open>
  The texts sent to the logs and the console, one constructor for each f-string of the source
  (the Russian wording is given in English):
  \<^item> \<open>Msg_available u t\<close>: "Available: u (t ms)";
  \<^item> \<open>Msg_taken u t\<close>: "Taken: u (t ms)";
  \<^item> \<open>Msg_error u e\<close>: "Error: u - e";
  \<^item> \<open>Msg_no_usernames\<close>: "No usernames found in the file!";
  \<^item> \<open>Msg_file_error e\<close>: "Error while reading the file: e";
  \<^item> \<open>Msg_load_failed e\<close>, \<open>Msg_save_failed e\<close>, \<open>Msg_run_failed e\<close>: the
    console lines of \<open>load_checked_usernames\<close>, \<open>save_checked_usernames\<close> and
    \<open>run\<close>.
\<close>

datatype message =
    Msg_available string real
  | Msg_taken string real
  | Msg_error string errtext
  | Msg_no_usernames
  | Msg_file_error errtext
  | Msg_load_failed errtext
  | Msg_save_failed errtext
  | Msg_run_failed errtext

text \<open>The four signals of \<open>CheckerThread\<close>.\<close>

datatype signal =
    Taken_log message
  | Available_log message
  | Progress int
  | Finished

text \<open>
  Effects, in the order the program performs them. An I/O effect records the attempt; whether
  it succeeded is decided by the environment and shows in the world and in what follows.
  \<^item> \<open>Emit s\<close>: the worker emits the signal \<open>s\<close>;
  \<^item> \<open>Http_get url\<close>: \<open>session.get(url)\<close>;
  \<^item> \<open>Append_available u\<close>: \<open>available.txt\<close> is opened for appending, to write
    \<open>u\<close> and a line feed;
  \<^item> \<open>Dump_checked v\<close>: \<open>save_checked_usernames(v)\<close> is called;
  \<^item> \<open>Sleep d\<close>: \<open>asyncio.sleep(d)\<close>;
  \<^item> \<open>Print m\<close>: a line on the console;
  \<^item> \<open>Thread_start k\<close>, \<open>Thread_stop k\<close>, \<open>Thread_wait k\<close>: the window calls
    \<open>start()\<close>, \<open>stop()\<close>, \<open>wait()\<close> on the worker at position \<open>k\<close> of its
    list;
  \<^item> \<open>Information_box\<close>: the box "Checking finished!"; \<open>Critical_box e\<close>: an error box.
\<close>

datatype effect =
    Emit signal
  | Http_get string
  | Append_available string
  | Dump_checked json
  | Sleep real
  | Print message
  | Thread_start nat
  | Thread_stop nat
  | Thread_wait nat
  | Information_box
  | Critical_box errtext

text \<open>The answer to one GET: the body and the measured time in milliseconds, or the text
  of the exception raised by the request or by reading the body.\<close>

datatype fetch_result = Response string real | Fetch_failed errtext

text \<open>What \<open>checked_usernames.json\<close> is on disk: absent, not openable for another
  reason, not valid JSON, or a JSON document (held as the value it parses to).\<close>

datatype store = Missing | Unreadable errtext | Corrupt errtext | Holds json

text \<open>How one \<open>save_checked_usernames\<close> ends: the document is written; \<open>open\<close>
  fails and the file is untouched; or the file is opened (and so truncated) and the write
  fails, leaving a fragment that \<open>json.load\<close> will reject with the second text.\<close>

datatype write_outcome = Written | Open_failed errtext | Write_failed errtext errtext

text \<open>How a coroutine of the worker ends. \<open>Out_of_fuel\<close> is the model's own: the
  generation loop was still running when the iterations granted to it were used up.\<close>

datatype outcome = Returned | Raised errtext | Out_of_fuel

record world =
  checked_store :: store
  available_file :: string
  files :: "string \<Rightarrow> errtext + string"

text \<open>
  The environment of one worker. The index is the number of the loop iteration, from 0.
  \<^item> \<open>fl_round\<close>: rounding of a real to the nearest float, for the two float
    computations of the source;
  \<^item> \<open>fetch i url\<close>: the answer to the GET of iteration \<open>i\<close>;
  \<^item> \<open>append_outcome i\<close>: \<open>None\<close> when the append to \<open>available.txt\<close>
    succeeds, the exception text otherwise;
  \<^item> \<open>save_outcome i\<close>: how the save of iteration \<open>i\<close> ends;
  \<^item> \<open>rand i k\<close>: the \<open>k\<close>-th random number of iteration \<open>i\<close>;
  \<^item> \<open>stop_called i\<close>: \<open>stop()\<close> was called on this worker after its test
    number \<open>i - 1\<close> of \<open>self.running\<close> and before test number \<open>i\<close>.
\<close>

record env =
  fl_round :: "real \<Rightarrow> real"
  fetch :: "nat \<Rightarrow> string \<Rightarrow> fetch_result"
  append_outcome :: "nat \<Rightarrow> errtext option"
  save_outcome :: "nat \<Rightarrow> write_outcome"
  rand :: "nat \<Rightarrow> nat \<Rightarrow> nat"
  stop_called :: "nat \<Rightarrow> bool"

text \<open>The fields of \<open>CheckerThread\<close>; \<open>length_py\<close> is \<open>self.length\<close>.\<close>

record checker_thread =
  mode :: string
  usernames_file :: "string option"
  length_py :: int
  use_digits :: bool
  use_underscore :: bool
  delay_ms :: real
  checked_usernames :: json
  running :: bool

datatype speed = Slow | Normal | Fast

datatype button_text = Generate_and_check | Stop_generation

text \<open>The state of \<open>MainWindow\<close> that its handlers read or write.\<close>

record main_window =
  threads :: "checker_thread list"
  stop_button_enabled :: bool
  file_button_enabled :: bool
  generate_button_text :: button_text
  file_path :: string
  length_spinbox :: int
  use_digits_checkbox :: bool
  use_underscore_checkbox :: bool
  speed_combobox :: speed
  taken_log_text :: "message list"
  available_log_text :: "message list"
  progress_bar :: int

section \<open>Helper functions of the source\<close>

text \<open>Python's \<open>needle in haystack\<close> on strings.\<close>

fun str_contains :: "string \<Rightarrow> string \<Rightarrow> bool" where
  "str_contains needle [] = (needle = [])"
| "str_contains needle (c # cs) = (prefix needle (c # cs) \<or> str_contains needle cs)"

text \<open>\<open>str.splitlines()\<close>: a line ends at LF, CR, CR LF, VT, FF, FS, GS, RS or NEL; the
  line ends are dropped and a final line end opens no further line. (\<open>read()\<close> turns
  CR and CR LF into LF first, which leaves the result the same.)\<close>

definition line_boundary :: "char \<Rightarrow> bool" where
  "line_boundary c =
     (c \<in> {CHR 0x0A, CHR 0x0B, CHR 0x0C, CHR 0x0D, CHR 0x1C, CHR 0x1D, CHR 0x1E, CHR 0x85})"

fun splitlines_from :: "string \<Rightarrow> string \<Rightarrow> string list" where
  "splitlines_from cur [] = (if cur = [] then [] else [rev cur])"
| "splitlines_from cur [c] = (if line_boundary c then [rev cur] else [rev (c # cur)])"
| "splitlines_from cur (c # d # cs) =
     (if c = CHR 0x0D \<and> d = CHR 0x0A then rev cur # splitlines_from [] cs
      else if line_boundary c then rev cur # splitlines_from [] (d # cs)
      else splitlines_from (c # cur) (d # cs))"

definition splitlines :: "string \<Rightarrow> string list" where
  "splitlines text = splitlines_from [] text"

definition ascii_lowercase :: string where
  "ascii_lowercase = ''abcdefghijklmnopqrstuvwxyz''"

definition digits :: string where
  "digits = ''0123456789''"

text \<open>\<open>generate_username\<close>: \<open>rnd k\<close> is the random number behind the \<open>k\<close>-th
  \<open>random.choice\<close>, which picks the character at that number modulo the size of the
  alphabet. With an integer length nothing in the body raises, so the \<open>except\<close> branch
  (which returns \<open>None\<close>) has no counterpart.\<close>

definition characters :: "bool \<Rightarrow> bool \<Rightarrow> string" where
  "characters with_digits with_underscore =
     ascii_lowercase @ (if with_digits then digits else []) @ (if with_underscore then ''_'' else [])"

definition generate_username :: "(nat \<Rightarrow> nat) \<Rightarrow> int \<Rightarrow> bool \<Rightarrow> bool \<Rightarrow> string" where
  "generate_username rnd len with_digits with_underscore =
     (let cs = characters with_digits with_underscore
      in map (\<lambda>k. cs ! (rnd k mod length cs)) [0..<nat len])"

definition load_checked_usernames :: "world \<Rightarrow> effect list \<times> json" where
  "load_checked_usernames wd =
     (case checked_store wd of
        Holds v \<Rightarrow> ([], v)
      | Missing \<Rightarrow> ([], JArr [])
      | Unreadable e \<Rightarrow> ([Print (Msg_load_failed e)], JArr [])
      | Corrupt e \<Rightarrow> ([Print (Msg_load_failed e)], JArr []))"

definition save_checked_usernames :: "write_outcome \<Rightarrow> json \<Rightarrow> world \<Rightarrow> effect list \<times> world" where
  "save_checked_usernames out v wd =
     (case out of
        Written \<Rightarrow> ([Dump_checked v], wd\<lparr>checked_store := Holds v\<rparr>)
      | Open_failed e \<Rightarrow> ([Dump_checked v, Print (Msg_save_failed e)], wd)
      | Write_failed e e' \<Rightarrow>
          ([Dump_checked v, Print (Msg_save_failed e)], wd\<lparr>checked_store := Corrupt e'\<rparr>))"

section \<open>CheckerThread\<close>

text \<open>The constructor: \<open>delay_ms / 1000\<close> is a float division, and the list of checked
  names is loaded from disk.\<close>

definition CheckerThread_init ::
  "(real \<Rightarrow> real) \<Rightarrow> string \<Rightarrow> string option \<Rightarrow> int \<Rightarrow> bool \<Rightarrow> bool \<Rightarrow> int \<Rightarrow> world
     \<Rightarrow> effect list \<times> checker_thread" where
  "CheckerThread_init rnd m file len with_digits with_underscore delay wd =
     (let (tr, loaded) = load_checked_usernames wd
      in (tr, \<lparr>mode = m, usernames_file = file, length_py = len, use_digits = with_digits,
               use_underscore = with_underscore, delay_ms = rnd (of_int delay / 1000),
               checked_usernames = loaded, running = True\<rparr>))"

definition stop :: "checker_thread \<Rightarrow> checker_thread" where
  "stop self = self\<lparr>running := False\<rparr>"

text \<open>The flag as the worker finds it at its test number \<open>i\<close>.\<close>

definition observe_stop :: "env \<Rightarrow> nat \<Rightarrow> checker_thread \<Rightarrow> checker_thread" where
  "observe_stop ev i self = (if stop_called ev i then stop self else self)"

definition marker :: string where
  \<open>marker = ''<div class="error_ctn">''\<close>

definition profile_url :: "string \<Rightarrow> string" where
  "profile_url username = ''https://steamcommunity.com/id/'' @ username"

text \<open>\<open>check_username\<close>, given the answer to its GET and the outcome of its append. The
  \<open>except\<close> clause encloses the append too, so a failed append is reported like a failed
  request.\<close>

definition check_username ::
  "checker_thread \<Rightarrow> string \<Rightarrow> fetch_result \<Rightarrow> errtext option \<Rightarrow> world \<Rightarrow> effect list \<times> world" where
  "check_username self username resp app wd =
     (let (tr, wd') =
        (case resp of
           Fetch_failed e \<Rightarrow> ([Emit (Taken_log (Msg_error username e))], wd)
         | Response text elapsed_time \<Rightarrow>
             if str_contains marker text then
               (case app of
                  None \<Rightarrow>
                    ([Emit (Available_log (Msg_available username elapsed_time)),
                      Append_available username],
                     wd\<lparr>available_file := available_file wd @ username @ [CHR 0x0A]\<rparr>)
                | Some e \<Rightarrow>
                    ([Emit (Available_log (Msg_available username elapsed_time)),
                      Append_available username,
                      Emit (Taken_log (Msg_error username e))],
                     wd))
             else ([Emit (Taken_log (Msg_taken username elapsed_time))], wd))
      in (Http_get (profile_url username) # tr @ [Sleep (delay_ms self)], wd'))"

text \<open>\<open>int(x)\<close> on a float truncates towards zero.\<close>

definition py_int :: "real \<Rightarrow> int" where
  "py_int x = (if x < 0 then \<lceil>x\<rceil> else \<lfloor>x\<rfloor>)"

text \<open>\<open>int((i + 1) / total_usernames * 100)\<close>: a float division, a float product and a
  truncation. The loop runs only when \<open>total_usernames\<close> is positive.\<close>

definition progress_percent :: "(real \<Rightarrow> real) \<Rightarrow> nat \<Rightarrow> nat \<Rightarrow> int" where
  "progress_percent rnd i total_usernames =
     py_int (rnd (rnd (real (i + 1) / real total_usernames) * 100))"

text \<open>The \<open>for\<close> loop of \<open>check_usernames_from_file\<close> from index \<open>i\<close> on.\<close>

fun file_loop ::
  "env \<Rightarrow> nat \<Rightarrow> nat \<Rightarrow> string list \<Rightarrow> checker_thread \<Rightarrow> world
     \<Rightarrow> effect list \<times> checker_thread \<times> world" where
  "file_loop ev total_usernames i [] self wd = ([], self, wd)"
| "file_loop ev total_usernames i (username # rest) self wd =
     (let self0 = observe_stop ev i self in
      if \<not> running self0 then ([], self0, wd)
      else
        (let (tr1, wd1) = check_username self0 username (fetch ev i (profile_url username))
                            (append_outcome ev i) wd;
             (tr2, self2, wd2) = file_loop ev total_usernames (i + 1) rest self0 wd1
         in (tr1 @ [Emit (Progress (progress_percent (fl_round ev) i total_usernames))] @ tr2,
             self2, wd2)))"

text \<open>\<open>open(self.usernames_file, ...)\<close>; the default \<open>None\<close> is not a path.\<close>

definition open_usernames_file :: "checker_thread \<Rightarrow> world \<Rightarrow> errtext + string" where
  "open_usernames_file self wd =
     (case usernames_file self of None \<Rightarrow> Inl ''TypeError'' | Some p \<Rightarrow> files wd p)"

definition check_usernames_from_file ::
  "env \<Rightarrow> checker_thread \<Rightarrow> world \<Rightarrow> effect list \<times> checker_thread \<times> world" where
  "check_usernames_from_file ev self wd =
     (case open_usernames_file self wd of
        Inl e \<Rightarrow> ([Emit (Taken_log (Msg_file_error e))], self, wd)
      | Inr text \<Rightarrow>
          (let usernames = splitlines text in
           if usernames = [] then ([Emit (Taken_log Msg_no_usernames)], self, wd)
           else file_loop ev (length usernames) 0 usernames self wd))"

text \<open>\<open>username not in self.checked_usernames\<close> and \<open>.append(username)\<close> on whatever
  \<open>json.load\<close> returned: a list, a dict (membership among the keys, no \<open>append\<close>), a
  string (substring test, no \<open>append\<close>), or a value that is not a container.\<close>

fun py_in :: "string \<Rightarrow> json \<Rightarrow> errtext + bool" where
  "py_in username (JArr xs) = Inr (JStr username \<in> set xs)"
| "py_in username (JObj kvs) = Inr (username \<in> set (map fst kvs))"
| "py_in username (JStr s) = Inr (str_contains username s)"
| "py_in username JNull = Inl ''TypeError''"
| "py_in username (JBool b) = Inl ''TypeError''"
| "py_in username (JNum n) = Inl ''TypeError''"

fun py_append :: "json \<Rightarrow> string \<Rightarrow> errtext + json" where
  "py_append (JArr xs) username = Inr (JArr (xs @ [JStr username]))"
| "py_append JNull username = Inl ''AttributeError''"
| "py_append (JBool b) username = Inl ''AttributeError''"
| "py_append (JNum n) username = Inl ''AttributeError''"
| "py_append (JStr s) username = Inl ''AttributeError''"
| "py_append (JObj kvs) username = Inl ''AttributeError''"

text \<open>The \<open>while self.running\<close> loop of \<open>generate_and_check_usernames\<close>, from
  iteration \<open>i\<close> on, for at most \<open>fuel\<close> iterations. An empty draw is falsy and is
  skipped before the membership test.\<close>

fun generate_loop ::
  "nat \<Rightarrow> env \<Rightarrow> nat \<Rightarrow> checker_thread \<Rightarrow> world
     \<Rightarrow> effect list \<times> outcome \<times> checker_thread \<times> world" where
  "generate_loop 0 ev i self wd = ([], Out_of_fuel, self, wd)"
| "generate_loop (Suc fuel) ev i self wd =
     (let self0 = observe_stop ev i self in
      if \<not> running self0 then ([], Returned, self0, wd)
      else
        (let username = generate_username (rand ev i) (length_py self0) (use_digits self0)
                          (use_underscore self0) in
         if username = [] then generate_loop fuel ev (i + 1) self0 wd
         else
           (case py_in username (checked_usernames self0) of
              Inl e \<Rightarrow> ([], Raised e, self0, wd)
            | Inr True \<Rightarrow> generate_loop fuel ev (i + 1) self0 wd
            | Inr False \<Rightarrow>
                (case py_append (checked_usernames self0) username of
                   Inl e \<Rightarrow> ([], Raised e, self0, wd)
                 | Inr l \<Rightarrow>
                     (let self1 = self0\<lparr>checked_usernames := l\<rparr>;
                          (tr1, wd1) = save_checked_usernames (save_outcome ev i) l wd;
                          (tr2, wd2) = check_username self1 username
                                         (fetch ev i (profile_url username))
                                         (append_outcome ev i) wd1;
                          (tr3, r, self3, wd3) = generate_loop fuel ev (i + 1) self1 wd2
                      in (tr1 @ tr2 @ tr3, r, self3, wd3))))))"

definition run_checks ::
  "nat \<Rightarrow> env \<Rightarrow> checker_thread \<Rightarrow> world \<Rightarrow> effect list \<times> outcome \<times> checker_thread \<times> world" where
  "run_checks fuel ev self wd =
     (if mode self = ''file'' then
        (let (tr, self', wd') = check_usernames_from_file ev self wd in (tr, Returned, self', wd'))
      else if mode self = ''generate'' then generate_loop fuel ev 0 self wd
      else ([], Returned, self, wd))"

text \<open>\<open>run\<close>: an exception of the checks is printed, and \<open>signal_finished\<close> is emitted
  in the \<open>finally\<close> clause.\<close>

definition run ::
  "nat \<Rightarrow> env \<Rightarrow> checker_thread \<Rightarrow> world \<Rightarrow> effect list \<times> outcome \<times> checker_thread \<times> world" where
  "run fuel ev self wd =
     (let (tr, r, self', wd') = run_checks fuel ev self wd in
      case r of
        Returned \<Rightarrow> (tr @ [Emit Finished], Returned, self', wd')
      | Raised e \<Rightarrow> (tr @ [Print (Msg_run_failed e), Emit Finished], Returned, self', wd')
      | Out_of_fuel \<Rightarrow> (tr, Out_of_fuel, self', wd'))"

text \<open>The signals a trace emits, in order.\<close>

fun emitted :: "effect list \<Rightarrow> signal list" where
  "emitted [] = []"
| "emitted (Emit s # tr) = s # emitted tr"
| "emitted (x # tr) = emitted tr"

section \<open>MainWindow\<close>

definition speed_mapping :: "speed \<Rightarrow> int" where
  "speed_mapping s = (case s of Slow \<Rightarrow> 1 | Normal \<Rightarrow> 3 | Fast \<Rightarrow> 5)"

definition update_taken_log :: "message \<Rightarrow> main_window \<Rightarrow> main_window" where
  "update_taken_log m mw = mw\<lparr>taken_log_text := taken_log_text mw @ [m]\<rparr>"

definition update_available_log :: "message \<Rightarrow> main_window \<Rightarrow> main_window" where
  "update_available_log m mw = mw\<lparr>available_log_text := available_log_text mw @ [m]\<rparr>"

definition update_progress :: "int \<Rightarrow> main_window \<Rightarrow> main_window" where
  "update_progress v mw = mw\<lparr>progress_bar := v\<rparr>"

text \<open>The connections made in \<open>start_checking\<close>: three signals have a slot; the line
  connecting \<open>signal_finished\<close> to \<open>checking_finished\<close> is commented out in the
  source, so that signal reaches no slot.\<close>

fun connected :: "signal \<Rightarrow> bool" where
  "connected (Taken_log m) = True"
| "connected (Available_log m) = True"
| "connected (Progress v) = True"
| "connected Finished = False"

fun deliver :: "signal \<Rightarrow> main_window \<Rightarrow> main_window" where
  "deliver (Taken_log m) mw = update_taken_log m mw"
| "deliver (Available_log m) mw = update_available_log m mw"
| "deliver (Progress v) mw = update_progress v mw"
| "deliver Finished mw = mw"

text \<open>The signals of a worker's trace that reach the window.\<close>

definition received :: "effect list \<Rightarrow> signal list" where
  "received tr = filter connected (emitted tr)"

text \<open>The \<open>for\<close> loop of \<open>start_checking\<close>: each round constructs a worker (with
  \<open>delay_ms=0\<close>), starts it and appends it to \<open>self.threads\<close>. The constructors
  all read the world \<open>wd\<close>. Nothing in the body raises in this model (the constructor's
  load catches its own exceptions), so the \<open>except\<close> clause has no branch.\<close>

fun start_threads ::
  "nat \<Rightarrow> (real \<Rightarrow> real) \<Rightarrow> string \<Rightarrow> string option \<Rightarrow> int \<Rightarrow> bool \<Rightarrow> bool \<Rightarrow> world \<Rightarrow> main_window
     \<Rightarrow> effect list \<times> main_window" where
  "start_threads 0 rnd m file len with_digits with_underscore wd mw = ([], mw)"
| "start_threads (Suc n) rnd m file len with_digits with_underscore wd mw =
     (let (tr0, thread) = CheckerThread_init rnd m file len with_digits with_underscore 0 wd;
          (tr1, mw1) = start_threads n rnd m file len with_digits with_underscore wd
                         (mw\<lparr>threads := threads mw @ [thread]\<rparr>)
      in (tr0 @ [Thread_start (length (threads mw))] @ tr1, mw1))"

definition start_checking ::
  "(real \<Rightarrow> real) \<Rightarrow> string \<Rightarrow> string option \<Rightarrow> int \<Rightarrow> bool \<Rightarrow> bool \<Rightarrow> int \<Rightarrow> world \<Rightarrow> main_window
     \<Rightarrow> effect list \<times> main_window" where
  "start_checking rnd m file len with_digits with_underscore num_threads wd mw =
     (let (tr, mw1) = start_threads (nat num_threads) rnd m file len with_digits with_underscore wd mw
      in (tr, mw1\<lparr>stop_button_enabled := True\<rparr>))"

definition checking_finished :: "main_window \<Rightarrow> effect list \<times> main_window" where
  "checking_finished mw =
     (let mw1 = (if threads mw \<noteq> [] then mw\<lparr>threads := butlast (threads mw)\<rparr> else mw) in
      if threads mw1 = [] then
        ([Information_box],
         mw1\<lparr>stop_button_enabled := False, file_button_enabled := True,
              generate_button_text := Generate_and_check\<rparr>)
      else ([], mw1))"

text \<open>\<open>stop_checking\<close>: every worker in turn is told to stop and waited for, the list is
  cleared, and \<open>checking_finished\<close> is called directly.\<close>

definition stop_checking :: "main_window \<Rightarrow> effect list \<times> main_window" where
  "stop_checking mw =
     (let tr = concat (map (\<lambda>k. [Thread_stop k, Thread_wait k]) [0..<length (threads mw)]);
          (tr1, mw1) = checking_finished (mw\<lparr>threads := [], stop_button_enabled := False\<rparr>)
      in (tr @ tr1, mw1))"

text \<open>\<open>choose_file\<close>, given the file name the dialog returns (empty when cancelled); it
  calls \<open>start_checking("file", filename)\<close> with the defaults of the other parameters.\<close>

definition choose_file :: "(real \<Rightarrow> real) \<Rightarrow> string \<Rightarrow> world \<Rightarrow> main_window \<Rightarrow> effect list \<times> main_window" where
  "choose_file rnd filename wd mw =
     (if filename \<noteq> [] then
        start_checking rnd ''file'' (Some filename) 3 True True 1 wd (mw\<lparr>file_path := filename\<rparr>)
      else ([], mw))"

text \<open>\<open>start_generation\<close>, the handler of the generate button: it starts workers when
  there are none and stops the existing ones otherwise.\<close>

definition start_generation :: "(real \<Rightarrow> real) \<Rightarrow> world \<Rightarrow> main_window \<Rightarrow> effect list \<times> main_window" where
  "start_generation rnd wd mw =
     (if threads mw = [] then
        (let (tr, mw1) = start_checking rnd ''generate'' None (length_spinbox mw)
                           (use_digits_checkbox mw) (use_underscore_checkbox mw)
                           (speed_mapping (speed_combobox mw)) wd mw
         in (tr, mw1\<lparr>generate_button_text := Stop_generation, file_button_enabled := False\<rparr>))
      else
        (let (tr, mw1) = stop_checking mw
         in (tr, mw1\<lparr>generate_button_text := Generate_and_check, file_button_enabled := True\<rparr>)))"

section \<open>Reading a trace\<close>

text \<open>The handles probed, in order: the tails of the URLs requested.\<close>

fun probed :: "effect list \<Rightarrow> string list" where
  "probed [] = []"
| "probed (Http_get url # tr) = drop (length (profile_url [])) url # probed tr"
| "probed (x # tr) = probed tr"

text \<open>The values sent with \<open>signal_update_progress\<close>, in order.\<close>

fun progress_values :: "effect list \<Rightarrow> int list" where
  "progress_values [] = []"
| "progress_values (Emit (Progress v) # tr) = v # progress_values tr"
| "progress_values (x # tr) = progress_values tr"

text \<open>\<open>happens_before x y tr\<close>: \<open>x\<close> occurs in \<open>tr\<close>, ahead of any \<open>y\<close>.\<close>

fun happens_before :: "effect \<Rightarrow> effect \<Rightarrow> effect list \<Rightarrow> bool" where
  "happens_before x y [] = False"
| "happens_before x y (z # tr) =
     (if z = y then False else if z = x then True else happens_before x y tr)"


text \<open>The environment in which \<open>stop()\<close> is never called.\<close>

definition never_stopped :: "env \<Rightarrow> env" where
  "never_stopped ev = ev\<lparr>stop_called := \<lambda>i. False\<rparr>"

text \<open>One generation session with a single worker: the worker is constructed on the world
  as it is (loading the checked names) and run.\<close>

definition generate_session ::
  "nat \<Rightarrow> env \<Rightarrow> int \<Rightarrow> bool \<Rightarrow> bool \<Rightarrow> world \<Rightarrow> effect list \<times> outcome \<times> checker_thread \<times> world" where
  "generate_session fuel ev len with_digits with_underscore wd =
     (let (tr0, self) = CheckerThread_init (fl_round ev) ''generate'' None len with_digits
                          with_underscore 0 wd;
          (tr, r, self', wd') = run fuel ev self wd
      in (tr0 @ tr, r, self', wd'))"

section \<open>Concrete inputs\<close>

text \<open>A transport that answers the error page for \<open>abc\<close> and a profile page for every
  other handle, in 12 ms.\<close>

definition fake_transport :: "nat \<Rightarrow> string \<Rightarrow> fetch_result" where
  "fake_transport i url =
     (if url = profile_url ''abc'' then Response (''<html>'' @ marker @ ''</div></html>'') 12
      else Response ''<html>profile</html>'' 12)"

text \<open>An environment in which no I/O fails, floats are exact, every random number is 0
  and \<open>stop()\<close> is never called.\<close>

definition calm_env :: env where
  "calm_env =
     \<lparr>fl_round = (\<lambda>x. x), fetch = fake_transport, append_outcome = (\<lambda>i. None),
      save_outcome = (\<lambda>i. Written), rand = (\<lambda>i k. 0), stop_called = (\<lambda>i. False)\<rparr>"

text \<open>A world without \<open>checked_usernames.json\<close> and \<open>available.txt\<close>, with a file
  \<open>names.txt\<close> of the two lines \<open>abc\<close> and the empty line, an empty file
  \<open>empty.txt\<close>, and no other file.\<close>

definition small_world :: world where
  "small_world =
     \<lparr>checked_store = Missing, available_file = [],
      files = (\<lambda>p. if p = ''names.txt'' then Inr (''abc'' @ [CHR 0x0A, CHR 0x0A])
                   else if p = ''empty.txt'' then Inr []
                   else Inl ''FileNotFoundError'')\<rparr>"

text \<open>The window as \<open>init_ui\<close> leaves it.\<close>

definition idle_window :: main_window where
  "idle_window =
     \<lparr>threads = [], stop_button_enabled = False, file_button_enabled = True,
      generate_button_text = Generate_and_check, file_path = [], length_spinbox = 3,
      use_digits_checkbox = True, use_underscore_checkbox = True, speed_combobox = Slow,
      taken_log_text = [], available_log_text = [], progress_bar = 0\<rparr>"

text \<open>A worker in file mode on \<open>names.txt\<close>, as \<open>choose_file\<close> constructs it.\<close>

definition file_worker :: "string \<Rightarrow> checker_thread" where
  "file_worker p = snd (CheckerThread_init (\<lambda>x. x) ''file'' (Some p) 3 True True 0 small_world)"

text \<open>The calm environment with \<open>stop()\<close> called just before test number \<open>k\<close>
  of the flag, and the calm environment in which no save can open its file.\<close>

definition stopping_env :: "nat \<Rightarrow> env" where
  "stopping_env k = calm_env\<lparr>stop_called := (\<lambda>i. i = k)\<rparr>"

definition failing_save_env :: env where
  "failing_save_env = calm_env\<lparr>save_outcome := (\<lambda>i. Open_failed ''PermissionError'')\<rparr>"

text \<open>The idle window with the speed set to the second entry, which stands for three
  workers; and the three workers the generate button then starts.\<close>

definition normal_window :: main_window where
  "normal_window = idle_window\<lparr>speed_combobox := Normal\<rparr>"

definition normal_workers :: "checker_thread list" where
  "normal_workers = threads (snd (start_generation id small_world normal_window))"

text \<open>The calm environment with the random numbers 0, 0, 1, 1, 2, 2, ... in successive
  iterations, so that every draw is made twice.\<close>

definition repeating_env :: env where
  "repeating_env = calm_env\<lparr>rand := (\<lambda>i k. i div 2)\<rparr>"

text \<open>The calm environment with the random number \<open>i\<close> in iteration \<open>i\<close>, so that
  successive draws differ, and with \<open>stop()\<close> called just before test number 3 of the
  flag.\<close>

definition late_stop_env :: env where
  "late_stop_env = calm_env\<lparr>rand := (\<lambda>i k. i), stop_called := (\<lambda>i. i = 3)\<rparr>"

text \<open>A worker in generate mode, as the generate button constructs it.\<close>

definition generate_worker :: checker_thread where
  "generate_worker = snd (CheckerThread_init (\<lambda>x. x) ''generate'' None 3 True True 0 small_world)"

section \<open>Facts about the helper functions\<close>

lemmas eval_defs =
  run_def run_checks_def file_worker_def CheckerThread_init_def load_checked_usernames_def
  small_world_def check_usernames_from_file_def open_usernames_file_def splitlines_def
  line_boundary_def calm_env_def observe_stop_def stop_def check_username_def fake_transport_def
  profile_url_def marker_def progress_percent_def py_int_def save_checked_usernames_def
  generate_username_def characters_def ascii_lowercase_def digits_def generate_session_def
  start_generation_def start_checking_def choose_file_def stop_checking_def
  checking_finished_def idle_window_def speed_mapping_def received_def never_stopped_def
  stopping_env_def failing_save_env_def normal_window_def normal_workers_def generate_worker_def
  repeating_env_def late_stop_env_def

text \<open>The model of \<open>in\<close> on strings is the substring relation.\<close>

lemma str_contains_sublist: "str_contains needle hay = sublist needle hay"
  by (induction hay) (auto simp: sublist_Cons_right)

text \<open>Only the empty text has no lines.\<close>

lemma splitlines_from_Nil_iff: "splitlines_from cur s = [] \<longleftrightarrow> cur = [] \<and> s = []"
  by (induction cur s rule: splitlines_from.induct) auto

lemma splitlines_Nil_iff: "splitlines s = [] \<longleftrightarrow> s = []"
  by (simp add: splitlines_def splitlines_from_Nil_iff)

section \<open>Facts about traces and loops\<close>

lemma emitted_append: "emitted (a @ b) = emitted a @ emitted b"
  by (induction a rule: emitted.induct) auto

lemma probed_append: "probed (a @ b) = probed a @ probed b"
  by (induction a rule: probed.induct) auto

lemma progress_values_append: "progress_values (a @ b) = progress_values a @ progress_values b"
  by (induction a rule: progress_values.induct) auto

lemma probed_check_username: "probed (fst (check_username self username resp app wd)) = [username]"
  by (simp add: check_username_def profile_url_def probed_append
        split: fetch_result.splits option.splits)

lemma progress_values_check_username:
  "progress_values (fst (check_username self username resp app wd)) = []"
  by (simp add: check_username_def split: fetch_result.splits option.splits)

lemma finished_not_in_check_username:
  "Finished \<notin> set (emitted (fst (check_username self username resp app wd)))"
  by (simp add: check_username_def split: fetch_result.splits option.splits)

lemma file_loop_step:
  assumes "running (observe_stop ev i self)"
    and "check_username (observe_stop ev i self) u (fetch ev i (profile_url u)) (append_outcome ev i) wd = (tr1, wd1)"
    and "file_loop ev n (Suc i) us (observe_stop ev i self) wd1 = (tr2, self2, wd2)"
  shows "file_loop ev n i (u # us) self wd
           = (tr1 @ [Emit (Progress (progress_percent (fl_round ev) i n))] @ tr2, self2, wd2)"
  using assms by (simp add: Let_def)

lemma file_loop_unstopped:
  assumes "running self" and "\<forall>j. \<not> stop_called ev j"
  shows "probed (fst (file_loop ev n i us self wd)) = us
       \<and> length (progress_values (fst (file_loop ev n i us self wd))) = length us
       \<and> (us \<noteq> [] \<longrightarrow> last (progress_values (fst (file_loop ev n i us self wd)))
              = progress_percent (fl_round ev) (i + length us - 1) n)"
  using assms
proof (induction us arbitrary: i self wd)
  case Nil
  then show ?case by simp
next
  case (Cons u us)
  have same: "observe_stop ev i self = self"
    using Cons.prems by (simp add: observe_stop_def)
  obtain tr1 wd1 where c: "check_username self u (fetch ev i (profile_url u)) (append_outcome ev i) wd = (tr1, wd1)"
    by (cases "check_username self u (fetch ev i (profile_url u)) (append_outcome ev i) wd")
  obtain tr2 self2 wd2 where r: "file_loop ev n (Suc i) us self wd1 = (tr2, self2, wd2)"
    by (cases "file_loop ev n (Suc i) us self wd1")
  have p1: "probed tr1 = [u]" and g1: "progress_values tr1 = []"
    using probed_check_username [of self u "fetch ev i (profile_url u)" "append_outcome ev i" wd]
          progress_values_check_username [of self u "fetch ev i (profile_url u)" "append_outcome ev i" wd]
    by (simp_all add: c)
  have ih: "probed tr2 = us \<and> length (progress_values tr2) = length us
       \<and> (us \<noteq> [] \<longrightarrow> last (progress_values tr2) = progress_percent (fl_round ev) (Suc i + length us - 1) n)"
    using Cons.IH [of self "Suc i" wd1] Cons.prems by (simp add: r)
  have whole: "file_loop ev n i (u # us) self wd
           = (tr1 @ [Emit (Progress (progress_percent (fl_round ev) i n))] @ tr2, self2, wd2)"
    using file_loop_step [of ev i self u wd tr1 wd1 n us tr2 self2 wd2] Cons.prems(1) c r
    by (simp add: same)
  have nonempty: "us \<noteq> [] \<Longrightarrow> progress_values tr2 \<noteq> []"
    using ih by (cases us) auto
  show ?case
    unfolding whole using ih nonempty
    by (cases "us = []") (auto simp: probed_append progress_values_append p1 g1)
qed

text \<open>Stopping: up to the test that finds the flag cleared, a loop does what it does when
  never stopped.\<close>

lemma never_stopped_fields:
  "fetch (never_stopped ev) = fetch ev"
  "append_outcome (never_stopped ev) = append_outcome ev"
  "save_outcome (never_stopped ev) = save_outcome ev"
  "rand (never_stopped ev) = rand ev"
  "fl_round (never_stopped ev) = fl_round ev"
  "observe_stop (never_stopped ev) i self = self"
  by (simp_all add: never_stopped_def observe_stop_def)

lemma file_loop_stop:
  assumes "running self" and "stop_called ev k" and "\<forall>j<k. \<not> stop_called ev j" and "i \<le> k"
  shows "fst (file_loop ev n i us self wd) = fst (file_loop (never_stopped ev) n i (take (k - i) us) self wd)
       \<and> snd (snd (file_loop ev n i us self wd))
           = snd (snd (file_loop (never_stopped ev) n i (take (k - i) us) self wd))"
  using assms
proof (induction us arbitrary: i self wd)
  case Nil
  then show ?case by simp
next
  case (Cons u us)
  show ?case
  proof (cases "i = k")
    case True
    then show ?thesis
      using Cons.prems by (simp add: observe_stop_def stop_def)
  next
    case False
    then have lt: "i < k" using Cons.prems by simp
    then have ns: "observe_stop ev i self = self"
      using Cons.prems by (simp add: observe_stop_def)
    have tk: "take (k - i) (u # us) = u # take (k - Suc i) us"
      using lt by (simp add: take_Cons')
    obtain tr1 wd1 where c: "check_username self u (fetch ev i (profile_url u)) (append_outcome ev i) wd = (tr1, wd1)"
      by (cases "check_username self u (fetch ev i (profile_url u)) (append_outcome ev i) wd")
    obtain tr2 self2 wd2 where r: "file_loop ev n (Suc i) us self wd1 = (tr2, self2, wd2)"
      by (cases "file_loop ev n (Suc i) us self wd1")
    obtain tr3 self3 wd3 where r': "file_loop (never_stopped ev) n (Suc i) (take (k - Suc i) us) self wd1 = (tr3, self3, wd3)"
      by (cases "file_loop (never_stopped ev) n (Suc i) (take (k - Suc i) us) self wd1")
    have ih: "tr2 = tr3 \<and> wd2 = wd3"
      using Cons.IH [of self "Suc i" wd1] Cons.prems lt by (simp add: r r')
    have a: "file_loop ev n i (u # us) self wd
           = (tr1 @ [Emit (Progress (progress_percent (fl_round ev) i n))] @ tr2, self2, wd2)"
      using file_loop_step [of ev i self u wd tr1 wd1 n us tr2 self2 wd2] Cons.prems(1) c r
      by (simp add: ns)
    have b: "file_loop (never_stopped ev) n i (u # take (k - Suc i) us) self wd
           = (tr1 @ [Emit (Progress (progress_percent (fl_round ev) i n))] @ tr3, self3, wd3)"
      using file_loop_step [of "never_stopped ev" i self u wd tr1 wd1 n "take (k - Suc i) us" tr3 self3 wd3]
            Cons.prems(1) c r'
      by (simp add: never_stopped_fields)
    show ?thesis
      unfolding tk a b using ih by simp
  qed
qed

lemma generate_loop_stop:
  assumes "running self" and "stop_called ev k" and "\<forall>j<k. \<not> stop_called ev j" and "i \<le> k"
    and "k - i < fuel"
  shows "fst (generate_loop fuel ev i self wd) = fst (generate_loop (k - i) (never_stopped ev) i self wd)
       \<and> fst (snd (generate_loop fuel ev i self wd)) \<noteq> Out_of_fuel
       \<and> snd (snd (snd (generate_loop fuel ev i self wd)))
           = snd (snd (snd (generate_loop (k - i) (never_stopped ev) i self wd)))"
  using assms
proof (induction fuel arbitrary: i self wd)
  case 0
  then show ?case by simp
next
  case (Suc fuel)
  show ?case
  proof (cases "i = k")
    case True
    then show ?thesis
      using Suc.prems by (simp add: observe_stop_def stop_def)
  next
    case False
    then have lt: "i < k" using Suc.prems by simp
    then have ns: "observe_stop ev i self = self"
      using Suc.prems by (simp add: observe_stop_def)
    have ki: "k - i = Suc (k - Suc i)"
      using lt by simp
    have ih: "running self' \<Longrightarrow>
        fst (generate_loop fuel ev (Suc i) self' wd') = fst (generate_loop (k - Suc i) (never_stopped ev) (Suc i) self' wd')
       \<and> fst (snd (generate_loop fuel ev (Suc i) self' wd')) \<noteq> Out_of_fuel
       \<and> snd (snd (snd (generate_loop fuel ev (Suc i) self' wd')))
           = snd (snd (snd (generate_loop (k - Suc i) (never_stopped ev) (Suc i) self' wd')))" for self' wd'
      using Suc.IH [of self' "Suc i" wd'] Suc.prems lt by simp
    show ?thesis
      unfolding ki using Suc.prems(1) ih
      by (simp add: ns never_stopped_fields case_prod_beta Let_def split: sum.splits bool.splits)
  qed
qed

lemma finished_not_in_file_loop:
  "Finished \<notin> set (emitted (fst (file_loop ev n i us self wd)))"
proof (induction us arbitrary: i self wd)
  case Nil
  then show ?case by simp
next
  case (Cons u us)
  show ?case
    using Cons.IH finished_not_in_check_username
    by (simp add: case_prod_beta Let_def emitted_append)
qed

lemma emitted_save: "emitted (fst (save_checked_usernames out v wd)) = []"
  by (simp add: save_checked_usernames_def split: write_outcome.splits)

lemma probed_save: "probed (fst (save_checked_usernames out v wd)) = []"
  by (simp add: save_checked_usernames_def split: write_outcome.splits)

lemma finished_not_in_generate_loop:
  "Finished \<notin> set (emitted (fst (generate_loop fuel ev i self wd)))"
proof (induction fuel arbitrary: i self wd)
  case 0
  then show ?case by simp
next
  case (Suc fuel)
  show ?case
    using Suc.IH finished_not_in_check_username
    by (simp add: case_prod_beta Let_def emitted_append emitted_save split: sum.splits bool.splits)
qed

lemma finished_not_in_run_checks:
  "Finished \<notin> set (emitted (fst (run_checks fuel ev self wd)))"
  using finished_not_in_file_loop finished_not_in_generate_loop
  by (simp add: run_checks_def check_usernames_from_file_def case_prod_beta Let_def
        split: sum.splits)

lemma finished_not_received: "Finished \<notin> set (received tr)"
  by (auto simp: received_def)

lemma file_mode_returns: "mode self = ''file'' \<Longrightarrow> fst (snd (run fuel ev self wd)) = Returned"
  by (simp add: run_def run_checks_def case_prod_beta)

lemma run_returns_iff:
  "fst (snd (run fuel ev self wd)) = Returned \<longleftrightarrow> fst (snd (run_checks fuel ev self wd)) \<noteq> Out_of_fuel"
  by (simp add: run_def case_prod_beta split: outcome.splits)

lemma length_probed_generate_loop:
  "length (probed (fst (generate_loop fuel ev i self wd))) \<le> fuel"
proof (induction fuel arbitrary: i self wd)
  case 0
  then show ?case by simp
next
  case (Suc fuel)
  have le: "length (probed (fst (generate_loop fuel ev (Suc i) s w))) \<le> Suc fuel" for s w
    using Suc.IH [of "Suc i" s w] by simp
  show ?case
    using le Suc.IH
    by (simp add: case_prod_beta Let_def probed_append probed_save probed_check_username
          split: sum.splits bool.splits)
qed

text \<open>The end of a run, and the handlers of the window.\<close>

lemma run_trace_ends_finished:
  assumes "fst (snd (run fuel ev self wd)) = Returned"
  shows "\<exists>tr. fst (run fuel ev self wd) = tr @ [Emit Finished] \<and> Finished \<notin> set (emitted tr)"
proof (cases "fst (snd (run_checks fuel ev self wd))")
  case Returned
  then have "fst (run fuel ev self wd) = fst (run_checks fuel ev self wd) @ [Emit Finished]"
    by (simp add: run_def case_prod_beta)
  then show ?thesis
    using finished_not_in_run_checks by blast
next
  case (Raised e)
  then have "fst (run fuel ev self wd)
               = (fst (run_checks fuel ev self wd) @ [Print (Msg_run_failed e)]) @ [Emit Finished]"
    by (simp add: run_def case_prod_beta)
  moreover have "Finished \<notin> set (emitted (fst (run_checks fuel ev self wd) @ [Print (Msg_run_failed e)]))"
    using finished_not_in_run_checks by (simp add: emitted_append)
  ultimately show ?thesis by blast
next
  case Out_of_fuel
  then show ?thesis
    using assms by (simp add: run_def case_prod_beta)
qed

lemma run_out_of_fuel_no_finished:
  assumes "fst (snd (run fuel ev self wd)) = Out_of_fuel"
  shows "Finished \<notin> set (emitted (fst (run fuel ev self wd)))"
proof (cases "fst (snd (run_checks fuel ev self wd))")
  case Out_of_fuel
  then have "fst (run fuel ev self wd) = fst (run_checks fuel ev self wd)"
    by (simp add: run_def case_prod_beta)
  then show ?thesis
    using finished_not_in_run_checks by simp
qed (use assms in \<open>simp_all add: run_def case_prod_beta\<close>)

lemma stop_checking_eq:
  "stop_checking mw
     = (concat (map (\<lambda>k. [Thread_stop k, Thread_wait k]) [0..<length (threads mw)]) @ [Information_box],
        mw\<lparr>threads := [], stop_button_enabled := False, file_button_enabled := True,
            generate_button_text := Generate_and_check\<rparr>)"
  by (simp add: stop_checking_def checking_finished_def)

lemma start_threads_threads:
  "threads (snd (start_threads n rnd m file len d u wd mw))
     = threads mw @ replicate n (snd (CheckerThread_init rnd m file len d u 0 wd))"
proof (induction n arbitrary: mw)
  case 0
  then show ?case by simp
next
  case (Suc n)
  show ?case
    using Suc.IH [of "mw\<lparr>threads := threads mw @ [snd (CheckerThread_init rnd m file len d u 0 wd)]\<rparr>"]
    by (simp add: case_prod_beta Let_def replicate_app_Cons_same)
qed

lemma start_threads_effects:
  "fst (start_threads n rnd m file len d u wd mw)
     = concat (map (\<lambda>k. fst (load_checked_usernames wd) @ [Thread_start (length (threads mw) + k)]) [0..<n])"
proof (induction n arbitrary: mw)
  case 0
  then show ?case by simp
next
  case (Suc n)
  have sh: "map (\<lambda>k. fst (load_checked_usernames wd) @ [Thread_start (length (threads mw) + k)]) [0..<Suc n]
          = (fst (load_checked_usernames wd) @ [Thread_start (length (threads mw))])
            # map (\<lambda>k. fst (load_checked_usernames wd) @ [Thread_start (Suc (length (threads mw)) + k)]) [0..<n]"
    by (simp only: upt_conv_Cons [OF zero_less_Suc] list.map map_Suc_upt [symmetric] map_map comp_def)
       simp
  show ?case
    unfolding sh
    using Suc.IH [of "mw\<lparr>threads := threads mw @ [snd (CheckerThread_init rnd m file len d u 0 wd)]\<rparr>"]
    by (simp add: case_prod_beta Let_def CheckerThread_init_def)
qed

lemma no_critical_box_in_load: "Critical_box e \<notin> set (fst (load_checked_usernames wd))"
  by (simp add: load_checked_usernames_def split: store.splits)

lemma no_critical_box_in_start_threads:
  "Critical_box e \<notin> set (fst (start_threads n rnd m file len d u wd mw))"
  by (auto simp: start_threads_effects no_critical_box_in_load)

















section \<open>Classification of a probe\<close>

text \<open>
  Claim C1. When the GET of a probe is answered with a body, the probe reports the handle as
  available exactly when the body contains the marker \<open><div class="error_ctn">\<close>, and as
  taken exactly when it does not.
\<close>

theorem probe_classified_by_marker:
  assumes "fetch ev i (profile_url username) = Response text t"
  shows "(Available_log (Msg_available username t)
            \<in> set (emitted (fst (check_username self username (fetch ev i (profile_url username)) app wd)))
          \<longleftrightarrow> sublist marker text)
       \<and> (Taken_log (Msg_taken username t)
            \<in> set (emitted (fst (check_username self username (fetch ev i (profile_url username)) app wd)))
          \<longleftrightarrow> \<not> sublist marker text)"
  using assms
  by (auto simp: check_username_def str_contains_sublist split: option.splits)

text \<open>With the transport that answers the error page for \<open>abc\<close> and a profile page for
  \<open>bob\<close>: \<open>abc\<close> is reported available and \<open>bob\<close> taken.\<close>

theorem probe_classified_by_marker_witness:
  "fetch calm_env 0 (profile_url ''abc'') = Response (''<html>'' @ marker @ ''</div></html>'') 12
   \<and> Available_log (Msg_available ''abc'' 12)
        \<in> set (emitted (fst (check_username (file_worker ''names.txt'') ''abc''
                               (fetch calm_env 0 (profile_url ''abc'')) None small_world)))
   \<and> fetch calm_env 0 (profile_url ''bob'') = Response ''<html>profile</html>'' 12
   \<and> Taken_log (Msg_taken ''bob'' 12)
        \<in> set (emitted (fst (check_username (file_worker ''names.txt'') ''bob''
                               (fetch calm_env 0 (profile_url ''bob'')) None small_world)))"
proof -
  have a: "fetch calm_env 0 (profile_url ''abc'') = Response (''<html>'' @ marker @ ''</div></html>'') 12"
    by (simp add: calm_env_def fake_transport_def)
  have b: "fetch calm_env 0 (profile_url ''bob'') = Response ''<html>profile</html>'' 12"
    by (simp add: calm_env_def fake_transport_def profile_url_def)
  have sa: "sublist marker (''<html>'' @ marker @ ''</div></html>'')"
    by (rule sublist_appendI)
  have sb: "\<not> sublist marker ''<html>profile</html>''"
    by (simp add: str_contains_sublist [symmetric] marker_def)
  from probe_classified_by_marker [OF a, of "file_worker ''names.txt''" None small_world]
       probe_classified_by_marker [OF b, of "file_worker ''names.txt''" None small_world]
       a b sa sb
  show ?thesis by blast
qed

section \<open>Recording an available handle\<close>

text \<open>
  Claim C3 says that an available handle is appended to \<open>available.txt\<close> before the
  available signal is emitted. The source emits first and appends second: in the trace of the
  probe of \<open>abc\<close> the append does not come before the emission, and when the append
  fails the signal has been emitted although nothing was written.
\<close>

theorem append_not_before_available_counterexample:
  "\<not> happens_before (Append_available ''abc'') (Emit (Available_log (Msg_available ''abc'' 12)))
        (fst (check_username (file_worker ''names.txt'') ''abc''
               (fake_transport 0 (profile_url ''abc'')) None small_world))
   \<and> Available_log (Msg_available ''abc'' 12)
        \<in> set (emitted (fst (check_username (file_worker ''names.txt'') ''abc''
               (fake_transport 0 (profile_url ''abc'')) (Some ''PermissionError'') small_world)))
   \<and> available_file (snd (check_username (file_worker ''names.txt'') ''abc''
               (fake_transport 0 (profile_url ''abc'')) (Some ''PermissionError'') small_world)) = []"
  by (simp add: eval_defs)

text \<open>
  Claim C3, amended. For a probe whose body contains the marker, the available signal is
  emitted first and the append to \<open>available.txt\<close> is attempted next, within the same
  probe. When the append succeeds the file grows by the handle and a line feed; when it fails
  the file is unchanged and the failure is reported on the taken log, after the available
  signal.
\<close>

theorem available_emitted_then_appended:
  assumes "sublist marker text"
  shows "happens_before (Emit (Available_log (Msg_available username t))) (Append_available username)
           (fst (check_username self username (Response text t) app wd))
       \<and> (case app of
            None \<Rightarrow> available_file (snd (check_username self username (Response text t) app wd))
                      = available_file wd @ username @ [CHR 0x0A]
          | Some e \<Rightarrow> available_file (snd (check_username self username (Response text t) app wd))
                        = available_file wd
                      \<and> emitted (fst (check_username self username (Response text t) app wd))
                        = [Available_log (Msg_available username t), Taken_log (Msg_error username e)])"
  using assms
  by (auto simp: check_username_def str_contains_sublist split: option.splits)

theorem available_emitted_then_appended_witness:
  "sublist marker (''<html>'' @ marker @ ''</div></html>'')
   \<and> happens_before (Emit (Available_log (Msg_available ''abc'' 12))) (Append_available ''abc'')
        (fst (check_username (file_worker ''names.txt'') ''abc''
               (Response (''<html>'' @ marker @ ''</div></html>'') 12) None small_world))
   \<and> available_file (snd (check_username (file_worker ''names.txt'') ''abc''
               (Response (''<html>'' @ marker @ ''</div></html>'') 12) None small_world))
       = ''abc'' @ [CHR 0x0A]"
proof -
  have s: "sublist marker (''<html>'' @ marker @ ''</div></html>'')"
    by (rule sublist_appendI)
  from available_emitted_then_appended [OF s, of "''abc''" 12 "file_worker ''names.txt''" None small_world] s
  show ?thesis by (simp add: small_world_def)
qed

section \<open>The store of checked names\<close>

text \<open>
  Claim C9 says that a list that is persisted and then loaded comes back the same, for every
  list. \<open>save_checked_usernames\<close> prints a failure of its write and returns: when the file
  cannot be opened for writing, the save of \<open>["abc"]\<close> leaves the missing store
  missing, and the load that follows returns the empty list.
\<close>

theorem failed_save_breaks_roundtrip_counterexample:
  "fst (save_checked_usernames (Open_failed ''PermissionError'') (JArr [JStr ''abc'']) small_world)
     = [Dump_checked (JArr [JStr ''abc'']), Print (Msg_save_failed ''PermissionError'')]
   \<and> checked_store (snd (save_checked_usernames (Open_failed ''PermissionError'')
                            (JArr [JStr ''abc'']) small_world)) = Missing
   \<and> load_checked_usernames (snd (save_checked_usernames (Open_failed ''PermissionError'')
                                    (JArr [JStr ''abc'']) small_world)) = ([], JArr [])"
  by (simp add: save_checked_usernames_def load_checked_usernames_def small_world_def)

text \<open>
  Claim C9, amended. Loading never fails: a missing store gives the empty list without a
  warning, a store that is not valid JSON gives the empty list and one warning, and in every
  case the result is the stored value or the empty list. What a load returns after a save
  depends on how the save ended: the saved list when the write succeeded; what the store held
  before when the file could not be opened; the empty list and a warning when the write failed
  after the file had been opened.
\<close>

theorem load_total_and_roundtrip_by_save_outcome:
  "(checked_store wd = Missing \<longrightarrow> load_checked_usernames wd = ([], JArr []))
   \<and> (checked_store wd = Corrupt e \<longrightarrow> load_checked_usernames wd = ([Print (Msg_load_failed e)], JArr []))
   \<and> snd (load_checked_usernames wd) = (case checked_store wd of Holds v \<Rightarrow> v | _ \<Rightarrow> JArr [])
   \<and> load_checked_usernames (snd (save_checked_usernames out v wd'))
       = (case out of
            Written \<Rightarrow> ([], v)
          | Open_failed x \<Rightarrow> load_checked_usernames wd'
          | Write_failed x y \<Rightarrow> ([Print (Msg_load_failed y)], JArr []))"
  by (simp add: load_checked_usernames_def save_checked_usernames_def
        split: store.splits write_outcome.splits)

theorem load_total_and_roundtrip_by_save_outcome_witness:
  "checked_store small_world = Missing
   \<and> load_checked_usernames small_world = ([], JArr [])
   \<and> checked_store (small_world\<lparr>checked_store := Corrupt ''JSONDecodeError''\<rparr>) = Corrupt ''JSONDecodeError''
   \<and> load_checked_usernames (small_world\<lparr>checked_store := Corrupt ''JSONDecodeError''\<rparr>)
       = ([Print (Msg_load_failed ''JSONDecodeError'')], JArr [])
   \<and> load_checked_usernames (snd (save_checked_usernames Written (JArr [JStr ''abc'', JStr ''x_9'']) small_world))
       = ([], JArr [JStr ''abc'', JStr ''x_9''])
   \<and> load_checked_usernames (snd (save_checked_usernames (Write_failed ''OSError'' ''JSONDecodeError'')
                                    (JArr [JStr ''abc'']) small_world))
       = ([Print (Msg_load_failed ''JSONDecodeError'')], JArr [])"
proof -
  have m: "checked_store small_world = Missing"
    by (simp add: small_world_def)
  have c: "checked_store (small_world\<lparr>checked_store := Corrupt ''JSONDecodeError''\<rparr>) = Corrupt ''JSONDecodeError''"
    by simp
  note t1 = load_total_and_roundtrip_by_save_outcome
              [of small_world "''JSONDecodeError''" Written "JArr [JStr ''abc'', JStr ''x_9'']" small_world]
  note t2 = load_total_and_roundtrip_by_save_outcome
              [of "small_world\<lparr>checked_store := Corrupt ''JSONDecodeError''\<rparr>" "''JSONDecodeError''"
                  "Write_failed ''OSError'' ''JSONDecodeError''" "JArr [JStr ''abc'']" small_world]
  have a: "load_checked_usernames small_world = ([], JArr [])"
    using t1 m by blast
  have b: "load_checked_usernames (small_world\<lparr>checked_store := Corrupt ''JSONDecodeError''\<rparr>)
       = ([Print (Msg_load_failed ''JSONDecodeError'')], JArr [])"
    using t2 c by blast
  have w: "load_checked_usernames (snd (save_checked_usernames Written (JArr [JStr ''abc'', JStr ''x_9'']) small_world))
       = ([], JArr [JStr ''abc'', JStr ''x_9''])"
    using t1 by simp
  have f: "load_checked_usernames (snd (save_checked_usernames (Write_failed ''OSError'' ''JSONDecodeError'')
                                    (JArr [JStr ''abc'']) small_world))
       = ([Print (Msg_load_failed ''JSONDecodeError'')], JArr [])"
    using t2 by simp
  show ?thesis
    by (intro conjI m a c b w f)
qed

section \<open>A file without lines\<close>

text \<open>
  Claim C10. A worker in file mode whose file opens and has no lines emits the notice that no
  usernames were found, once, on the taken log, then the finished signal, and nothing else: no
  request and no progress value.
\<close>

theorem empty_file_one_notice_then_finished:
  assumes "mode self = ''file''"
    and "open_usernames_file self wd = Inr text"
    and "splitlines text = []"
  shows "run fuel ev self wd = ([Emit (Taken_log Msg_no_usernames), Emit Finished], Returned, self, wd)
       \<and> probed (fst (run fuel ev self wd)) = []
       \<and> progress_values (fst (run fuel ev self wd)) = []"
  using assms by (simp add: run_def run_checks_def check_usernames_from_file_def)

theorem empty_file_one_notice_then_finished_witness:
  "mode (file_worker ''empty.txt'') = ''file''
   \<and> open_usernames_file (file_worker ''empty.txt'') small_world = Inr []
   \<and> splitlines [] = []
   \<and> run 0 calm_env (file_worker ''empty.txt'') small_world
       = ([Emit (Taken_log Msg_no_usernames), Emit Finished], Returned, file_worker ''empty.txt'', small_world)"
proof -
  have m: "mode (file_worker ''empty.txt'') = ''file''"
    by (simp add: file_worker_def CheckerThread_init_def load_checked_usernames_def small_world_def)
  have f: "open_usernames_file (file_worker ''empty.txt'') small_world = Inr []"
    by (simp add: file_worker_def CheckerThread_init_def load_checked_usernames_def small_world_def
          open_usernames_file_def)
  have l: "splitlines [] = []"
    by (simp add: splitlines_def)
  from empty_file_one_notice_then_finished [OF m f l, of 0 calm_env] m f l
  show ?thesis by simp
qed

section \<open>A run over a file\<close>

text \<open>
  Claim C4 says that only the non-empty lines of the file are probed. The source probes every
  element of \<open>splitlines()\<close>: the file \<open>names.txt\<close> holds the line \<open>abc\<close> and
  an empty line, one non-empty line in all, and the run makes two requests, the second for
  the empty handle.
\<close>

theorem empty_line_is_probed_counterexample:
  "files small_world ''names.txt'' = Inr (''abc'' @ [CHR 0x0A, CHR 0x0A])
   \<and> removeAll [] (splitlines (''abc'' @ [CHR 0x0A, CHR 0x0A])) = [''abc'']
   \<and> probed (fst (run 0 calm_env (file_worker ''names.txt'') small_world)) = [''abc'', []]"
  by (simp add: eval_defs)

text \<open>
  Claim C4, amended. A worker in file mode whose file opens with at least one line, and which
  is not stopped, makes one request for each line of the file, empty lines included, in file
  order; the last progress value it emits is 100 (floats being exact at 1 and 100), and the
  run ends.
\<close>

theorem file_run_probes_every_line:
  assumes "mode self = ''file''"
    and "running self"
    and "open_usernames_file self wd = Inr text"
    and "splitlines text \<noteq> []"
    and "\<forall>i. \<not> stop_called ev i"
    and "fl_round ev 1 = 1"
    and "fl_round ev 100 = 100"
  shows "probed (fst (run fuel ev self wd)) = splitlines text
       \<and> last (progress_values (fst (run fuel ev self wd))) = 100
       \<and> fst (snd (run fuel ev self wd)) = Returned"
proof -
  let ?us = "splitlines text"
  let ?loop = "file_loop ev (length ?us) 0 ?us self wd"
  obtain tr self' wd' where l: "?loop = (tr, self', wd')"
    by (cases ?loop)
  have f: "probed tr = ?us \<and> length (progress_values tr) = length ?us
         \<and> last (progress_values tr) = progress_percent (fl_round ev) (length ?us - 1) (length ?us)"
    using file_loop_unstopped [of self ev "length ?us" 0 ?us wd] assms(2,4,5) by (simp add: l)
  have pos: "0 < length ?us"
    using assms(4) by simp
  have pct: "progress_percent (fl_round ev) (length ?us - 1) (length ?us) = 100"
    using pos assms(6,7) by (simp add: progress_percent_def py_int_def)
  have r: "run fuel ev self wd = (tr @ [Emit Finished], Returned, self', wd')"
    using assms(1,3,4) l by (simp add: run_def run_checks_def check_usernames_from_file_def)
  show ?thesis
    using f pct by (simp add: r probed_append progress_values_append)
qed

theorem file_run_probes_every_line_witness:
  "mode (file_worker ''names.txt'') = ''file''
   \<and> running (file_worker ''names.txt'')
   \<and> open_usernames_file (file_worker ''names.txt'') small_world = Inr (''abc'' @ [CHR 0x0A, CHR 0x0A])
   \<and> splitlines (''abc'' @ [CHR 0x0A, CHR 0x0A]) = [''abc'', []]
   \<and> stop_called calm_env 0 = False
   \<and> fl_round calm_env 1 = 1
   \<and> fl_round calm_env 100 = 100
   \<and> probed (fst (run 0 calm_env (file_worker ''names.txt'') small_world)) = [''abc'', []]
   \<and> last (progress_values (fst (run 0 calm_env (file_worker ''names.txt'') small_world))) = 100"
proof -
  have m: "mode (file_worker ''names.txt'') = ''file''"
    and r: "running (file_worker ''names.txt'')"
    by (simp_all add: file_worker_def CheckerThread_init_def load_checked_usernames_def small_world_def)
  have f: "open_usernames_file (file_worker ''names.txt'') small_world = Inr (''abc'' @ [CHR 0x0A, CHR 0x0A])"
    by (simp add: file_worker_def CheckerThread_init_def load_checked_usernames_def small_world_def
          open_usernames_file_def)
  have l: "splitlines (''abc'' @ [CHR 0x0A, CHR 0x0A]) = [''abc'', []]"
    by (simp add: splitlines_def line_boundary_def)
  have n: "splitlines (''abc'' @ [CHR 0x0A, CHR 0x0A]) \<noteq> []"
    by (simp add: splitlines_Nil_iff)
  have s: "\<forall>i. \<not> stop_called calm_env i"
    and o: "fl_round calm_env 1 = 1" and h: "fl_round calm_env 100 = 100"
    by (simp_all add: calm_env_def)
  from file_run_probes_every_line [OF m r f n s o h, of 0] m r f l s o h
  show ?thesis by simp
qed

section \<open>Stopping a worker\<close>

text \<open>
  Claim C6 says that once \<open>stop()\<close> has set the flag no worker starts a new probe. Every
  worker has a flag of its own, and \<open>stop_checking\<close> sets them one at a time, waiting
  for each worker to end before it turns to the next. With the three workers of the second
  speed, \<open>stop()\<close> reaches the second worker only after the first has been stopped and
  waited for; a worker that \<open>stop()\<close> reaches just before its test number 3 of the flag
  has by then started three probes.
\<close>

theorem later_worker_probes_after_first_stop_counterexample:
  "fst (stop_checking (idle_window\<lparr>threads := normal_workers\<rparr>))
     = [Thread_stop 0, Thread_wait 0, Thread_stop 1, Thread_wait 1, Thread_stop 2, Thread_wait 2,
        Information_box]
   \<and> probed (fst (generate_loop 4 late_stop_env 0 (normal_workers ! 1) small_world))
       = [''aaa'', ''bbb'', ''ccc'']
   \<and> fst (snd (generate_loop 4 late_stop_env 0 (normal_workers ! 1) small_world)) = Returned"
  by code_simp

text \<open>
  Claim C6, amended. Let \<open>stop()\<close> be called on a running worker between its tests number
  \<open>k - 1\<close> and \<open>k\<close> of its own flag, that is while its iteration \<open>k - 1\<close> is
  in flight. In file mode that worker does exactly what an unstopped worker does on the first
  \<open>k\<close> lines, so the probe in flight is completed and no later line is requested. In
  generate mode it does exactly what an unstopped worker does in \<open>k\<close> iterations, then
  leaves the loop, and the run ends. \<open>stop_checking\<close> calls \<open>stop()\<close> and then
  \<open>wait()\<close> on the workers of its list in turn, so a worker goes on probing until the
  workers before it have ended.
\<close>

theorem stop_ends_own_worker_after_iteration_in_flight:
  assumes "running self"
    and "stop_called ev k"
    and "\<forall>j<k. \<not> stop_called ev j"
    and "k < fuel"
  shows "fst (file_loop ev n 0 us self wd) = fst (file_loop (never_stopped ev) n 0 (take k us) self wd)
       \<and> probed (fst (file_loop ev n 0 us self wd)) = take k us
       \<and> fst (generate_loop fuel ev 0 self wd) = fst (generate_loop k (never_stopped ev) 0 self wd)
       \<and> length (probed (fst (generate_loop fuel ev 0 self wd))) \<le> k
       \<and> fst (snd (generate_loop fuel ev 0 self wd)) \<noteq> Out_of_fuel
       \<and> fst (snd (run fuel ev self wd)) = Returned
       \<and> fst (stop_checking mw)
           = concat (map (\<lambda>j. [Thread_stop j, Thread_wait j]) [0..<length (threads mw)])
             @ [Information_box]"
proof -
  have f: "fst (file_loop ev n 0 us self wd) = fst (file_loop (never_stopped ev) n 0 (take k us) self wd)"
    using file_loop_stop [of self ev k 0 n us wd] assms by simp
  have ns: "\<forall>j. \<not> stop_called (never_stopped ev) j"
    by (simp add: never_stopped_def)
  have p: "probed (fst (file_loop (never_stopped ev) n 0 (take k us) self wd)) = take k us"
    using file_loop_unstopped [of self "never_stopped ev" n 0 "take k us" wd] assms(1) ns by simp
  have g: "fst (generate_loop fuel ev 0 self wd) = fst (generate_loop k (never_stopped ev) 0 self wd)
       \<and> fst (snd (generate_loop fuel ev 0 self wd)) \<noteq> Out_of_fuel"
    using generate_loop_stop [of self ev k 0 fuel wd] assms by simp
  have l: "length (probed (fst (generate_loop k (never_stopped ev) 0 self wd))) \<le> k"
    by (rule length_probed_generate_loop)
  have r: "fst (snd (run_checks fuel ev self wd)) \<noteq> Out_of_fuel"
    using g by (simp add: run_checks_def case_prod_beta)
  show ?thesis
    using f p g l r by (simp add: run_returns_iff stop_checking_eq)
qed

theorem stop_ends_own_worker_after_iteration_in_flight_witness:
  "running generate_worker
   \<and> stop_called (stopping_env 1) 1
   \<and> \<not> stop_called (stopping_env 1) 0
   \<and> (1::nat) < 3
   \<and> probed (fst (file_loop (stopping_env 1) 2 0 [''abc'', ''bob''] generate_worker small_world)) = [''abc'']
   \<and> progress_values (fst (file_loop (stopping_env 1) 2 0 [''abc'', ''bob''] generate_worker small_world)) = [50]
   \<and> probed (fst (generate_loop 3 (stopping_env 1) 0 generate_worker small_world)) = [''aaa'']
   \<and> fst (snd (run 3 (stopping_env 1) generate_worker small_world)) = Returned"
proof -
  have r: "running generate_worker"
    by (simp add: generate_worker_def CheckerThread_init_def load_checked_usernames_def small_world_def)
  have s: "stop_called (stopping_env 1) 1" and s0: "\<not> stop_called (stopping_env 1) 0"
    by (simp_all add: stopping_env_def calm_env_def)
  have a: "\<forall>j<1. \<not> stop_called (stopping_env 1) j"
    by (simp add: stopping_env_def calm_env_def)
  have k: "(1::nat) < 3" by simp
  note th = stop_ends_own_worker_after_iteration_in_flight [OF r s a k, of 2 "[''abc'', ''bob'']" small_world]
  have ret: "fst (snd (run 3 (stopping_env 1) generate_worker small_world)) = Returned"
    using th by blast
  have p: "probed (fst (file_loop (stopping_env 1) 2 0 [''abc'', ''bob''] generate_worker small_world))
             = take 1 [''abc'', ''bob'']"
    using th by blast
  have v: "progress_values (fst (file_loop (stopping_env 1) 2 0 [''abc'', ''bob''] generate_worker small_world)) = [50]"
    by (simp add: generate_worker_def eval_defs Let_def eval_nat_numeral)
  have g: "probed (fst (generate_loop 3 (stopping_env 1) 0 generate_worker small_world)) = [''aaa'']"
    by (simp add: generate_worker_def eval_defs Let_def eval_nat_numeral)
  show ?thesis
    using r s s0 k ret p v g by simp
qed

section \<open>The finished signal\<close>

text \<open>
  Claim C5 says that the observer receives exactly one finished event for every run, after
  the last worker has ended. In the source the connection of \<open>signal_finished\<close> to
  \<open>checking_finished\<close> is commented out: a file run that ends by itself emits the
  signal once and the window receives none. A generation run at the second speed has three
  workers, and each of them emits the signal when it ends.
\<close>

theorem window_receives_no_finished_counterexample:
  "fst (snd (run 0 calm_env (file_worker ''names.txt'') small_world)) = Returned
   \<and> count_list (emitted (fst (run 0 calm_env (file_worker ''names.txt'') small_world))) Finished = 1
   \<and> count_list (received (fst (run 0 calm_env (file_worker ''names.txt'') small_world))) Finished = 0
   \<and> length normal_workers = 3
   \<and> fst (run 1 (stopping_env 0) (normal_workers ! 0) small_world) = [Emit Finished]
   \<and> fst (run 1 (stopping_env 0) (normal_workers ! 1) small_world) = [Emit Finished]
   \<and> fst (run 1 (stopping_env 0) (normal_workers ! 2) small_world) = [Emit Finished]"
  by (simp add: eval_defs Let_def eval_nat_numeral)

text \<open>
  Claim C5, amended. Every worker emits the finished signal exactly once, as the last signal
  of its run, however the run ends (a worker in file mode always ends; a worker whose loop is
  still running has not emitted it), so a run of n workers emits it n times. The window has no
  slot connected to it and receives none of them. The window shows its completion notice only
  in \<open>stop_checking\<close>, once for each call, after every worker in its list has been stopped
  and waited for.
\<close>

theorem finished_emitted_per_worker_not_received:
  "(fst (snd (run fuel ev self wd)) = Returned \<longrightarrow>
      (\<exists>tr. fst (run fuel ev self wd) = tr @ [Emit Finished] \<and> Finished \<notin> set (emitted tr)))
   \<and> (fst (snd (run fuel ev self wd)) = Out_of_fuel \<longrightarrow>
        Finished \<notin> set (emitted (fst (run fuel ev self wd))))
   \<and> (mode self = ''file'' \<longrightarrow> fst (snd (run fuel ev self wd)) = Returned)
   \<and> Finished \<notin> set (received (fst (run fuel ev self wd)))
   \<and> stop_checking mw
       = (concat (map (\<lambda>k. [Thread_stop k, Thread_wait k]) [0..<length (threads mw)]) @ [Information_box],
          mw\<lparr>threads := [], stop_button_enabled := False, file_button_enabled := True,
              generate_button_text := Generate_and_check\<rparr>)"
  using run_trace_ends_finished [of fuel ev self wd] run_out_of_fuel_no_finished [of fuel ev self wd]
        file_mode_returns [of self fuel ev wd] finished_not_received stop_checking_eq [of mw]
  by blast

theorem finished_emitted_per_worker_not_received_witness:
  "fst (snd (run 0 calm_env (file_worker ''empty.txt'') small_world)) = Returned
   \<and> fst (run 0 calm_env (file_worker ''empty.txt'') small_world)
       = [Emit (Taken_log Msg_no_usernames)] @ [Emit Finished]
   \<and> fst (snd (run 1 calm_env generate_worker small_world)) = Out_of_fuel
   \<and> count_list (emitted (fst (run 1 calm_env generate_worker small_world))) Finished = 0
   \<and> mode (file_worker ''empty.txt'') = ''file''
   \<and> fst (stop_checking (idle_window\<lparr>threads := normal_workers\<rparr>))
       = [Thread_stop 0, Thread_wait 0, Thread_stop 1, Thread_wait 1, Thread_stop 2, Thread_wait 2,
          Information_box]
   \<and> threads (snd (stop_checking (idle_window\<lparr>threads := normal_workers\<rparr>))) = []"
proof -
  note th = finished_emitted_per_worker_not_received
  have m: "mode (file_worker ''empty.txt'') = ''file''"
    by (simp add: eval_defs)
  have ret: "fst (snd (run 0 calm_env (file_worker ''empty.txt'') small_world)) = Returned"
    using th [of 0 calm_env "file_worker ''empty.txt''" small_world idle_window] m by blast
  have tr: "fst (run 0 calm_env (file_worker ''empty.txt'') small_world)
       = [Emit (Taken_log Msg_no_usernames)] @ [Emit Finished]"
    by (simp add: eval_defs)
  have o: "fst (snd (run 1 calm_env generate_worker small_world)) = Out_of_fuel"
    by (simp add: eval_defs Let_def eval_nat_numeral)
  have nf: "Finished \<notin> set (emitted (fst (run 1 calm_env generate_worker small_world)))"
    using th [of 1 calm_env generate_worker small_world idle_window] o by blast
  have c: "count_list (emitted (fst (run 1 calm_env generate_worker small_world))) Finished = 0"
    using nf by (simp add: count_list_0_iff)
  have len: "length normal_workers = 3"
    by (simp add: eval_defs Let_def eval_nat_numeral)
  have sc: "stop_checking (idle_window\<lparr>threads := normal_workers\<rparr>)
       = (concat (map (\<lambda>k. [Thread_stop k, Thread_wait k]) [0..<length (threads (idle_window\<lparr>threads := normal_workers\<rparr>))]) @ [Information_box],
          idle_window\<lparr>threads := normal_workers\<rparr>\<lparr>threads := [], stop_button_enabled := False, file_button_enabled := True,
              generate_button_text := Generate_and_check\<rparr>)"
    using th [of 0 calm_env generate_worker small_world "idle_window\<lparr>threads := normal_workers\<rparr>"] by blast
  have ef: "fst (stop_checking (idle_window\<lparr>threads := normal_workers\<rparr>))
       = [Thread_stop 0, Thread_wait 0, Thread_stop 1, Thread_wait 1, Thread_stop 2, Thread_wait 2,
          Information_box]"
    by (simp add: sc len eval_nat_numeral)
  have et: "threads (snd (stop_checking (idle_window\<lparr>threads := normal_workers\<rparr>))) = []"
    by (simp add: sc)
  show ?thesis
    using ret tr o c m ef et by blast
qed

section \<open>Starting while workers exist\<close>

text \<open>
  Claim C7 says that a start while a run is active is rejected with an error and spawns
  nothing. The source has no such check: choosing a second file while the worker of the first
  is in the list starts a second worker, without any error box.
\<close>

theorem start_while_running_spawns_counterexample:
  "threads (snd (choose_file id ''names.txt'' small_world idle_window)) = [file_worker ''names.txt'']
   \<and> choose_file id ''empty.txt'' small_world (snd (choose_file id ''names.txt'' small_world idle_window))
       = ([Thread_start 1],
          snd (choose_file id ''names.txt'' small_world idle_window)
            \<lparr>threads := [file_worker ''names.txt'', file_worker ''empty.txt''], file_path := ''empty.txt''\<rparr>)"
  by (simp add: eval_defs Let_def)

text \<open>
  Claim C7, amended. \<open>start_checking\<close> does not look at the workers that exist: it always
  appends the requested number of new workers to the list, leaves the existing ones as they
  are, and shows no error; so does \<open>choose_file\<close>, with one worker. The only guards are
  in the generate button: pressed while workers exist it stops them and starts none, and when
  it starts workers it disables the file button.
\<close>

theorem start_checking_always_spawns:
  "threads (snd (start_checking rnd m file len d u num wd mw))
     = threads mw @ replicate (nat num) (snd (CheckerThread_init rnd m file len d u 0 wd))
   \<and> (\<forall>e. Critical_box e \<notin> set (fst (start_checking rnd m file len d u num wd mw)))
   \<and> (filename \<noteq> [] \<longrightarrow>
        threads (snd (choose_file rnd filename wd mw))
          = threads mw @ [snd (CheckerThread_init rnd ''file'' (Some filename) 3 True True 0 wd)])
   \<and> (threads mw \<noteq> [] \<longrightarrow>
        threads (snd (start_generation rnd wd mw)) = []
        \<and> fst (start_generation rnd wd mw) = fst (stop_checking mw))
   \<and> (threads mw = [] \<longrightarrow> \<not> file_button_enabled (snd (start_generation rnd wd mw)))"
  by (simp add: start_checking_def choose_file_def start_generation_def case_prod_beta
        start_threads_threads no_critical_box_in_start_threads stop_checking_eq)

theorem start_checking_always_spawns_witness:
  "threads (snd (start_checking id ''file'' (Some ''empty.txt'') 3 True True 1 small_world
                   (idle_window\<lparr>threads := [file_worker ''names.txt'']\<rparr>)))
     = [file_worker ''names.txt'', file_worker ''empty.txt'']
   \<and> ''empty.txt'' \<noteq> []
   \<and> threads (snd (choose_file id ''empty.txt'' small_world (idle_window\<lparr>threads := [file_worker ''names.txt'']\<rparr>)))
     = [file_worker ''names.txt'', file_worker ''empty.txt'']
   \<and> threads (idle_window\<lparr>threads := [file_worker ''names.txt'']\<rparr>) \<noteq> []
   \<and> threads (snd (start_generation id small_world (idle_window\<lparr>threads := [file_worker ''names.txt'']\<rparr>))) = []
   \<and> threads idle_window = []
   \<and> \<not> file_button_enabled (snd (start_generation id small_world idle_window))"
proof -
  note th = start_checking_always_spawns
  have ne: "''empty.txt'' \<noteq> []" by simp
  have w: "snd (CheckerThread_init id ''file'' (Some ''empty.txt'') 3 True True 0 small_world) = file_worker ''empty.txt''"
    by (simp add: eval_defs)
  have t1: "threads (idle_window\<lparr>threads := [file_worker ''names.txt'']\<rparr>) = [file_worker ''names.txt'']"
    by simp
  have a: "threads (snd (start_checking id ''file'' (Some ''empty.txt'') 3 True True 1 small_world
                   (idle_window\<lparr>threads := [file_worker ''names.txt'']\<rparr>)))
     = threads (idle_window\<lparr>threads := [file_worker ''names.txt'']\<rparr>)
        @ replicate (nat 1) (snd (CheckerThread_init id ''file'' (Some ''empty.txt'') 3 True True 0 small_world))"
    using th [of id "''file''" "Some ''empty.txt''" 3 True True 1 small_world
                "idle_window\<lparr>threads := [file_worker ''names.txt'']\<rparr>" "''empty.txt''"]
    by blast
  have b: "threads (snd (choose_file id ''empty.txt'' small_world (idle_window\<lparr>threads := [file_worker ''names.txt'']\<rparr>)))
     = threads (idle_window\<lparr>threads := [file_worker ''names.txt'']\<rparr>)
        @ [snd (CheckerThread_init id ''file'' (Some ''empty.txt'') 3 True True 0 small_world)]"
    using th [of id "''file''" "Some ''empty.txt''" 3 True True 1 small_world
                "idle_window\<lparr>threads := [file_worker ''names.txt'']\<rparr>" "''empty.txt''"] ne
    by blast
  have c: "threads (snd (start_generation id small_world (idle_window\<lparr>threads := [file_worker ''names.txt'']\<rparr>))) = []"
    using th [of id "''file''" "Some ''empty.txt''" 3 True True 1 small_world
                "idle_window\<lparr>threads := [file_worker ''names.txt'']\<rparr>" "''empty.txt''"] t1
    by simp
  have i: "threads idle_window = []"
    by (simp add: idle_window_def)
  have d: "\<not> file_button_enabled (snd (start_generation id small_world idle_window))"
    using th [of id "''file''" "Some ''empty.txt''" 3 True True 1 small_world idle_window "''empty.txt''"] i
    by blast
  show ?thesis
    using a b c d i ne by (simp add: w)
qed

section \<open>A file that cannot be opened\<close>

text \<open>
  Claim C8 says that no worker is started when the file cannot be opened. The source starts
  the worker without looking at the file: for the missing file \<open>nope.txt\<close> one worker is
  started and appended to the list.
\<close>

theorem worker_started_for_unopenable_file_counterexample:
  "files small_world ''nope.txt'' = Inl ''FileNotFoundError''
   \<and> fst (choose_file id ''nope.txt'' small_world idle_window) = [Thread_start 0]
   \<and> threads (snd (choose_file id ''nope.txt'' small_world idle_window)) = [file_worker ''nope.txt'']"
  by (simp add: eval_defs Let_def)

text \<open>
  Claim C8, amended. \<open>choose_file\<close> starts one worker whatever the state of the file. When
  the file cannot be opened, that worker reports the failure once, as one message on the taken
  log, makes no request, emits the finished signal and ends.
\<close>

theorem unopenable_file_reported_once_by_started_worker:
  assumes "mode self = ''file''"
    and "open_usernames_file self wd = Inl e"
  shows "run fuel ev self wd = ([Emit (Taken_log (Msg_file_error e)), Emit Finished], Returned, self, wd)
       \<and> probed (fst (run fuel ev self wd)) = []
       \<and> (filename \<noteq> [] \<longrightarrow>
            fst (choose_file rnd filename wd mw)
              = fst (load_checked_usernames wd) @ [Thread_start (length (threads mw))]
            \<and> length (threads (snd (choose_file rnd filename wd mw))) = length (threads mw) + 1)"
  using assms
  by (simp add: run_def run_checks_def check_usernames_from_file_def choose_file_def
        start_checking_def case_prod_beta start_threads_effects start_threads_threads
        CheckerThread_init_def)

theorem unopenable_file_reported_once_by_started_worker_witness:
  "mode (file_worker ''nope.txt'') = ''file''
   \<and> open_usernames_file (file_worker ''nope.txt'') small_world = Inl ''FileNotFoundError''
   \<and> run 0 calm_env (file_worker ''nope.txt'') small_world
       = ([Emit (Taken_log (Msg_file_error ''FileNotFoundError'')), Emit Finished], Returned,
          file_worker ''nope.txt'', small_world)
   \<and> ''nope.txt'' \<noteq> []
   \<and> fst (choose_file id ''nope.txt'' small_world idle_window) = [Thread_start 0]"
proof -
  have m: "mode (file_worker ''nope.txt'') = ''file''"
    by (simp add: eval_defs)
  have f: "open_usernames_file (file_worker ''nope.txt'') small_world = Inl ''FileNotFoundError''"
    by (simp add: eval_defs)
  have ne: "''nope.txt'' \<noteq> []" by simp
  note th = unopenable_file_reported_once_by_started_worker [OF m f, of 0 calm_env "''nope.txt''" id idle_window]
  have r: "run 0 calm_env (file_worker ''nope.txt'') small_world
       = ([Emit (Taken_log (Msg_file_error ''FileNotFoundError'')), Emit Finished], Returned,
          file_worker ''nope.txt'', small_world)"
    using th by blast
  have c: "fst (choose_file id ''nope.txt'' small_world idle_window)
             = fst (load_checked_usernames small_world) @ [Thread_start (length (threads idle_window))]"
    using th ne by blast
  have c': "fst (choose_file id ''nope.txt'' small_world idle_window) = [Thread_start 0]"
    unfolding c by (simp add: eval_defs)
  show ?thesis
    using m f r ne c' by blast
qed

section \<open>Generated handles and the list of checked names\<close>




end
